theory Spec2Isabelle
  imports Main "HOL-Library.List_Lexorder" "HOL-Library.Char_ord"
begin

section \<open>Data frames of the notebook\<close>

text \<open>
  The notebook \<^verbatim>\<open>Getting_Started_with_WatsonX_AI_SDK.ipynb\<close> works on pandas
  data frames. A frame is modelled as the list of its rows, in positional order; the
  notebook reaches rows by position only (\<^verbatim>\<open>iloc\<close>, boolean masks,
  \<^verbatim>\<open>pd.concat\<close>), so the index labels are left out. A row carries the
  columns the notebook names: \<^verbatim>\<open>dteday\<close> (the timestamp column, whose type
  changes while the series is loaded), \<^verbatim>\<open>hr\<close>, the two target columns
  \<^verbatim>\<open>casual\<close> and \<^verbatim>\<open>registered\<close>, and \<^verbatim>\<open>id\<close> (the notebook's
  \<^verbatim>\<open>id_column\<close>), which is
  \<open>None\<close> while the frame has no such column. A target cell is \<open>None\<close> when it is
  null (NaN). The columns the notebook never names travel in \<open>others\<close>.
\<close>

record ('t, 'v, 'c) row =
  dteday :: 't
  hr :: int
  casual :: "'v option"
  registered :: "'v option"
  id_column :: "string option"
  others :: 'c

type_synonym ('t, 'v, 'c) frame = "('t, 'v, 'c) row list"

subsection \<open>Positional slicing\<close>

text \<open>
  \<^verbatim>\<open>frame.iloc[a:b, :]\<close> follows Python's slice rules: a negative bound counts from
  the end, and every bound is clipped to \<open>0 .. len\<close>; a slice never raises.
\<close>

definition slice_bound :: "nat \<Rightarrow> int \<Rightarrow> nat" where
  "slice_bound n k = (if k < 0 then nat (max (k + int n) 0) else min (nat k) n)"

definition iloc :: "'a list \<Rightarrow> int \<Rightarrow> int \<Rightarrow> 'a list" where
  "iloc xs a b =
     (let lo = slice_bound (length xs) a; hi = slice_bound (length xs) b
      in take (hi - lo) (drop lo xs))"

text \<open>\<^verbatim>\<open>series.iloc[a:]\<close>: the slice with no upper bound.\<close>

definition iloc_from :: "'a list \<Rightarrow> int \<Rightarrow> 'a list" where
  "iloc_from xs a = drop (slice_bound (length xs) a) xs"

subsection \<open>Identifiers\<close>

text \<open>\<^verbatim>\<open>f"id_{i}"\<close>: the decimal form of a Python integer after the prefix.\<close>

definition digit :: "nat \<Rightarrow> char" where
  "digit d = ''0123456789'' ! d"

fun str_nat :: "nat \<Rightarrow> string" where
  "str_nat n = (if n < 10 then [digit n] else str_nat (n div 10) @ [digit (n mod 10)])"

definition str_int :: "int \<Rightarrow> string" where
  "str_int i = (if i < 0 then CHR ''-'' # str_nat (nat (- i)) else str_nat (nat i))"

definition id_of :: "int \<Rightarrow> string" where
  "id_of i = ''id_'' @ str_int i"

text \<open>
  The number that a string of decimal digits denotes (Python's \<^verbatim>\<open>int(s)\<close>), to
  say what \<open>str_nat\<close> writes.
\<close>

definition digit_value :: "char \<Rightarrow> nat" where
  "digit_value c = length (takeWhile (\<lambda>d. d \<noteq> c) ''0123456789'')"

definition decimal_value :: "string \<Rightarrow> nat" where
  "decimal_value ds = foldl (\<lambda>a c. 10 * a + digit_value c) 0 ds"

text \<open>\<^verbatim>\<open>df[id_column] = v\<close>: every row of the frame gets the value in column id.\<close>

definition set_id :: "string \<Rightarrow> ('t, 'v, 'c) frame \<Rightarrow> ('t, 'v, 'c) frame" where
  "set_id v fr = map (\<lambda>r. r\<lparr>id_column := Some v\<rparr>) fr"

section \<open>The window extraction cell\<close>

text \<open>
  The cell builds, for every start index, a context window and a future window:
  \<^verbatim>\<open>
  input_data = []
  ground_truth_data = []
  for i in start_index:
      df = input_df.iloc[i : i + context_length, :].copy()
      df[id_column] = f"id_{i}"
      input_data.append(df)
      df = input_df.iloc[i + context_length : i + context_length + prediction_length, :].copy()
      df[id_column] = f"id_{i}"
      ground_truth_data.append(df)
  input_data = pd.concat(input_data)
  ground_truth_data = pd.concat(ground_truth_data)
  \<close>
  Frames are objects, and the column assignment changes an object in place, so the
  model keeps an object store: the frame bound to \<^verbatim>\<open>input_df\<close> and the frames
  allocated since. The loop variable \<^verbatim>\<open>df\<close> holds the address of its
  object, and the two Python lists hold addresses.
\<close>

datatype addr = InputDf | Obj nat

record ('t, 'v, 'c) nb =
  input_df :: "('t, 'v, 'c) frame"
  objs :: "('t, 'v, 'c) frame list"
  input_data :: "addr list"
  ground_truth_data :: "addr list"

definition deref :: "('t, 'v, 'c) nb \<Rightarrow> addr \<Rightarrow> ('t, 'v, 'c) frame" where
  "deref s a = (case a of InputDf \<Rightarrow> input_df s | Obj k \<Rightarrow> objs s ! k)"

text \<open>
  \<^verbatim>\<open>x.iloc[a:b, :].copy()\<close>: a new object that holds the sliced rows; the
  object sliced is only read.
\<close>

definition iloc_copy ::
  "addr \<Rightarrow> int \<Rightarrow> int \<Rightarrow> ('t, 'v, 'c) nb \<Rightarrow> addr \<times> ('t, 'v, 'c) nb" where
  "iloc_copy x a b s = (Obj (length (objs s)), s\<lparr>objs := objs s @ [iloc (deref s x) a b]\<rparr>)"

text \<open>\<^verbatim>\<open>x[id_column] = v\<close>: the object at the address is changed in place.\<close>

definition setitem_id :: "addr \<Rightarrow> string \<Rightarrow> ('t, 'v, 'c) nb \<Rightarrow> ('t, 'v, 'c) nb" where
  "setitem_id x v s =
     (case x of
        InputDf \<Rightarrow> s\<lparr>input_df := set_id v (input_df s)\<rparr>
      | Obj k \<Rightarrow> s\<lparr>objs := (objs s)[k := set_id v (objs s ! k)]\<rparr>)"

definition loop_body ::
  "int \<Rightarrow> int \<Rightarrow> ('t, 'v, 'c) nb \<Rightarrow> int \<Rightarrow> ('t, 'v, 'c) nb" where
  "loop_body context_length prediction_length s i =
     (let (df, s1) = iloc_copy InputDf i (i + context_length) s;
          s2 = setitem_id df (id_of i) s1;
          s3 = s2\<lparr>input_data := input_data s2 @ [df]\<rparr>;
          (df, s4) = iloc_copy InputDf (i + context_length)
                       (i + context_length + prediction_length) s3;
          s5 = setitem_id df (id_of i) s4
      in s5\<lparr>ground_truth_data := ground_truth_data s5 @ [df]\<rparr>)"

definition window_loop ::
  "int \<Rightarrow> int \<Rightarrow> int list \<Rightarrow> ('t, 'v, 'c) nb \<Rightarrow> ('t, 'v, 'c) nb" where
  "window_loop context_length prediction_length start_index s =
     foldl (loop_body context_length prediction_length)
       (s\<lparr>input_data := [], ground_truth_data := []\<rparr>) start_index"

text \<open>
  The exceptions that the statements of the notebook raise: \<^verbatim>\<open>ValueError\<close>
  (\<^verbatim>\<open>pd.concat\<close> of no frames, \<^verbatim>\<open>plt.subplots\<close> with no row),
  \<^verbatim>\<open>TypeError\<close> (subscripting a single \<^verbatim>\<open>Axes\<close>), and the two
  overflow errors of pandas times.
\<close>

datatype error = ValueError | TypeError | OutOfBoundsTimedelta | OutOfBoundsDatetime

text \<open>
  \<^verbatim>\<open>pd.concat(frames)\<close> raises \<^verbatim>\<open>ValueError\<close> ("No objects to
  concatenate") on the empty list; otherwise the rows of the frames follow one another in
  list order. It is the only statement of the cell that can raise.
\<close>

definition pd_concat :: "'a list list \<Rightarrow> error + 'a list" where
  "pd_concat frames = (if frames = [] then Inl ValueError else Inr (concat frames))"

text \<open>
  The cell: the loop, then the two concatenations, which rebind \<^verbatim>\<open>input_data\<close>
  and \<^verbatim>\<open>ground_truth_data\<close> to the combined tables. The result holds the two
  tables and the store the cell leaves behind.
\<close>

record ('t, 'v, 'c) tables =
  input_table :: "('t, 'v, 'c) frame"
  ground_truth_table :: "('t, 'v, 'c) frame"
  store :: "('t, 'v, 'c) nb"

definition window_cell ::
  "int \<Rightarrow> int \<Rightarrow> int list \<Rightarrow> ('t, 'v, 'c) nb \<Rightarrow> error + ('t, 'v, 'c) tables" where
  "window_cell context_length prediction_length start_index s =
     (let s' = window_loop context_length prediction_length start_index s
      in case pd_concat (map (deref s') (input_data s')) of
           Inl e \<Rightarrow> Inl e
         | Inr tbl_in \<Rightarrow>
             (case pd_concat (map (deref s') (ground_truth_data s')) of
                Inl e \<Rightarrow> Inl e
              | Inr tbl_gt \<Rightarrow>
                  Inr \<lparr>input_table = tbl_in, ground_truth_table = tbl_gt, store = s'\<rparr>))"

text \<open>
  What one iteration computes, without the store: the rows of the two windows of start
  index \<open>i\<close>.
\<close>

definition context_window ::
  "int \<Rightarrow> ('t, 'v, 'c) frame \<Rightarrow> int \<Rightarrow> ('t, 'v, 'c) frame" where
  "context_window context_length series i =
     set_id (id_of i) (iloc series i (i + context_length))"

definition future_window ::
  "int \<Rightarrow> int \<Rightarrow> ('t, 'v, 'c) frame \<Rightarrow> int \<Rightarrow> ('t, 'v, 'c) frame" where
  "future_window context_length prediction_length series i =
     set_id (id_of i)
       (iloc series (i + context_length) (i + context_length + prediction_length))"

text \<open>The objects that the loop allocates, in order: two for every start index.\<close>

definition window_pairs ::
  "int \<Rightarrow> int \<Rightarrow> ('t, 'v, 'c) frame \<Rightarrow> int list \<Rightarrow> ('t, 'v, 'c) frame list" where
  "window_pairs context_length prediction_length series start_index =
     concat (map (\<lambda>i. [context_window context_length series i,
                        future_window context_length prediction_length series i]) start_index)"

section \<open>The loading cell\<close>

text \<open>
  \<^verbatim>\<open>
  input_df = pd.read_csv(DATA_FILE_PATH, parse_dates=[timestamp_column])
  input_df[timestamp_column] = input_df[timestamp_column]
      + input_df.hr.apply(lambda x: pd.Timedelta(x, unit="hr"))
  input_df[timestamp_column] = input_df[timestamp_column].apply(lambda x: x.isoformat())
  \<close>
  The frame that \<^verbatim>\<open>read_csv\<close> returns is the input of the model: the timestamp
  column holds the parsed dates as pandas timestamps, and an empty field of a target
  column is null. A pandas timestamp is a count of nanoseconds since 1970-01-01T00:00:00
  in a signed 64-bit integer, whose least value stands for "not a time"; a time difference
  is such a count too. An operation whose result leaves that range raises.
\<close>

type_synonym timestamp = int

definition hour_ns :: int where
  "hour_ns = 3600000000000"

definition day_ns :: int where
  "day_ns = 86400000000000"

definition int64_ns :: "int \<Rightarrow> bool" where
  "int64_ns v = (- 9223372036854775807 \<le> v \<and> v \<le> 9223372036854775807)"

text \<open>
  \<^verbatim>\<open>pd.Timedelta(x, unit="hr")\<close>, in nanoseconds; it raises
  \<^verbatim>\<open>OutOfBoundsTimedelta\<close> when the hours do not fit.
\<close>

definition Timedelta_hr :: "int \<Rightarrow> error + int" where
  "Timedelta_hr x =
     (if int64_ns (x * hour_ns) then Inr (x * hour_ns) else Inl OutOfBoundsTimedelta)"

text \<open>
  Timestamp plus time difference; it raises \<^verbatim>\<open>OutOfBoundsDatetime\<close> when the
  sum does not fit.
\<close>

definition Timestamp_add :: "timestamp \<Rightarrow> int \<Rightarrow> error + timestamp" where
  "Timestamp_add ts td =
     (if int64_ns (ts + td) then Inr (ts + td) else Inl OutOfBoundsDatetime)"

text \<open>
  \<^verbatim>\<open>column.apply(f)\<close>, and an operation on two columns element by element: the
  first element on which the function raises ends the statement.
\<close>

fun apply_col :: "('a \<Rightarrow> error + 'b) \<Rightarrow> 'a list \<Rightarrow> error + 'b list" where
  "apply_col f [] = Inr []"
| "apply_col f (x # xs) =
     (case f x of
        Inl e \<Rightarrow> Inl e
      | Inr y \<Rightarrow> (case apply_col f xs of Inl e \<Rightarrow> Inl e | Inr ys \<Rightarrow> Inr (y # ys)))"

text \<open>
  The proleptic Gregorian date of a day number (days since 1970-01-01), as year, month
  and day. The computation goes by the 400-year era, the day of the era \<open>doe\<close>, the
  year of the era \<open>yoe\<close>, the day of the year \<open>doy\<close> counted from 1 March, and the
  month \<open>mp\<close> counted from March.
\<close>

definition month_of :: "int \<Rightarrow> int" where
  "month_of mp = (if mp < 10 then mp + 3 else mp - 9)"

definition civil_of_doy :: "int \<Rightarrow> int \<Rightarrow> int \<Rightarrow> int \<times> int \<times> int" where
  "civil_of_doy y doy mp =
     (y + (if month_of mp \<le> 2 then 1 else 0), month_of mp, doy - (153 * mp + 2) div 5 + 1)"

definition civil_of_yoe :: "int \<Rightarrow> int \<Rightarrow> int \<Rightarrow> int \<times> int \<times> int" where
  "civil_of_yoe era yoe doy = civil_of_doy (yoe + era * 400) doy ((5 * doy + 2) div 153)"

definition civil_of_doe :: "int \<Rightarrow> int \<Rightarrow> int \<Rightarrow> int \<times> int \<times> int" where
  "civil_of_doe era doe yoe =
     civil_of_yoe era yoe (doe - (365 * yoe + yoe div 4 - yoe div 100))"

definition civil_of_era :: "int \<Rightarrow> int \<Rightarrow> int \<times> int \<times> int" where
  "civil_of_era era doe =
     civil_of_doe era doe ((doe - doe div 1460 + doe div 36524 - doe div 146096) div 365)"

definition civil_from_days :: "int \<Rightarrow> int \<times> int \<times> int" where
  "civil_from_days z = civil_of_era ((z + 719468) div 146097) ((z + 719468) mod 146097)"

text \<open>
  A number in decimal, filled with zeros on the left to a width, the sign of a negative
  number counting in the width (the format \<^verbatim>\<open>%0wd\<close>).
\<close>

definition zero_fill :: "nat \<Rightarrow> string \<Rightarrow> string" where
  "zero_fill w ds = replicate (w - length ds) CHR ''0'' @ ds"

definition pad :: "nat \<Rightarrow> int \<Rightarrow> string" where
  "pad w n =
     (if n < 0 then CHR ''-'' # zero_fill (w - 1) (str_nat (nat (- n)))
      else zero_fill w (str_nat (nat n)))"

definition iso_date :: "int \<Rightarrow> string" where
  "iso_date z = (case civil_from_days z of (y, m, d) \<Rightarrow> pad 4 y @ ''-'' @ pad 2 m @ ''-'' @ pad 2 d)"

definition iso_time :: "int \<Rightarrow> string" where
  "iso_time r =
     (let secs = r div 1000000000; frac = r mod 1000000000
      in pad 2 (secs div 3600) @ '':'' @ pad 2 (secs div 60 mod 60) @ '':'' @ pad 2 (secs mod 60) @
         (if frac = 0 then []
          else if frac mod 1000 = 0 then ''.'' @ pad 6 (frac div 1000)
          else ''.'' @ pad 9 frac))"

text \<open>
  \<^verbatim>\<open>Timestamp.isoformat()\<close> of a timestamp without time zone: date, \<open>T\<close>, time
  of day, and the fraction of the second when there is one (six digits, nine when there
  are nanoseconds).
\<close>

definition isoformat :: "timestamp \<Rightarrow> string" where
  "isoformat ts = iso_date (ts div day_ns) @ ''T'' @ iso_time (ts mod day_ns)"

text \<open>\<^verbatim>\<open>frame[timestamp_column] = column\<close>: the column is replaced, row by row.\<close>

definition set_dteday :: "('t, 'v, 'c) frame \<Rightarrow> 'u list \<Rightarrow> ('u, 'v, 'c) frame" where
  "set_dteday fr col =
     map2 (\<lambda>r t. \<lparr>dteday = t, hr = hr r, casual = casual r, registered = registered r,
                   id_column = id_column r, others = others r\<rparr>) fr col"

definition fix_hours :: "(timestamp, 'v, 'c) frame \<Rightarrow> error + (timestamp, 'v, 'c) frame" where
  "fix_hours fr =
     (case apply_col Timedelta_hr (map hr fr) of
        Inl e \<Rightarrow> Inl e
      | Inr deltas \<Rightarrow>
          (case apply_col (\<lambda>(ts, td). Timestamp_add ts td) (zip (map dteday fr) deltas) of
             Inl e \<Rightarrow> Inl e
           | Inr col \<Rightarrow> Inr (set_dteday fr col)))"

definition to_isoformat :: "(timestamp, 'v, 'c) frame \<Rightarrow> (string, 'v, 'c) frame" where
  "to_isoformat fr = set_dteday fr (map isoformat (map dteday fr))"

definition load_series :: "(timestamp, 'v, 'c) frame \<Rightarrow> error + (string, 'v, 'c) frame" where
  "load_series fr = (case fix_hours fr of Inl e \<Rightarrow> Inl e | Inr fixed \<Rightarrow> Inr (to_isoformat fixed))"

section \<open>The plotting cell\<close>

text \<open>
  The forecast response becomes the frame \<^verbatim>\<open>df_out\<close> with the columns id,
  timestamp and the targets. The plotting cell then walks over the groups of
  \<^verbatim>\<open>input_data\<close> and prepares, for each, the two curves it draws:
  \<^verbatim>\<open>
  history = 60
  grps = input_data.groupby(id_column)
  for i, (grp_name, grp) in enumerate(grps):
      gt = ground_truth_data[ground_truth_data[id_column] == grp_name]
      gt_dt = pd.concat([grp[timestamp_column].iloc[-history:], gt[timestamp_column]])
      gt_val = pd.concat([grp[target_columns[0]].iloc[-history:], gt[target_columns[0]]])
      pred = df_out[df_out[id_column] == grp_name]
      ... plot pred[timestamp_column], pred[target_columns[0]]
  \<close>
  The function \<open>align\<close> below is the data that the loop prepares for all groups;
  \<open>plot_cell\<close> is the cell with its calls into the plotting library. Timestamps are
  taken to be strings that \<^verbatim>\<open>pd.to_datetime\<close> reads, as the loading cell and
  the forecasting service write them. Below, \<open>input_tbl\<close> and \<open>ground_truth_tbl\<close>
  stand for the tables that the extraction cell has bound to \<^verbatim>\<open>input_data\<close>
  and \<^verbatim>\<open>ground_truth_data\<close>.
\<close>

record 'v forecast_row =
  fc_id :: string
  fc_dteday :: string
  fc_casual :: "'v option"
  fc_registered :: "'v option"

record 'v aligned =
  gt_dt :: "string list"
  gt_val :: "'v option list"
  pred_dt :: "string list"
  pred_val :: "'v option list"

text \<open>
  \<^verbatim>\<open>frame.groupby(id_column)\<close>: one group for each value of the column, the
  groups in ascending order of the value, the rows of a group in the order of the frame;
  rows with a null key belong to no group.
\<close>

definition groupby_id :: "(string, 'v, 'c) frame \<Rightarrow> (string \<times> (string, 'v, 'c) frame) list" where
  "groupby_id fr =
     map (\<lambda>k. (k, filter (\<lambda>r. id_column r = Some k) fr))
       (sort (remdups (List.map_filter id_column fr)))"

definition align_group ::
  "int \<Rightarrow> string \<Rightarrow> (string, 'v, 'c) frame \<Rightarrow> (string, 'v, 'c) frame \<Rightarrow>
     'v forecast_row list \<Rightarrow> 'v aligned" where
  "align_group history grp_name grp ground_truth_tbl df_out =
     (let gt = filter (\<lambda>r. id_column r = Some grp_name) ground_truth_tbl;
          pred = filter (\<lambda>r. fc_id r = grp_name) df_out
      in \<lparr>gt_dt = iloc_from (map dteday grp) (- history) @ map dteday gt,
          gt_val = iloc_from (map casual grp) (- history) @ map casual gt,
          pred_dt = map fc_dteday pred,
          pred_val = map fc_casual pred\<rparr>)"

definition align ::
  "int \<Rightarrow> (string, 'v, 'c) frame \<Rightarrow> (string, 'v, 'c) frame \<Rightarrow> 'v forecast_row list \<Rightarrow>
     (string \<times> 'v aligned) list" where
  "align history input_tbl ground_truth_tbl df_out =
     map (\<lambda>(grp_name, grp). (grp_name, align_group history grp_name grp ground_truth_tbl df_out))
       (groupby_id input_tbl)"

text \<open>
  \<^verbatim>\<open>
  num_plots = len(grps)
  fig, axs = plt.subplots(num_plots, 1, figsize=(10, 2 * num_plots))
  for i, (grp_name, grp) in enumerate(grps):
      ...
      axs[i].plot(pd.to_datetime(gt_dt), gt_val, ...)
      pred = df_out[df_out[id_column] == grp_name]
      axs[i].plot(pd.to_datetime(pred[timestamp_column]), pred[target_columns[0]], ...)
  \<close>
  \<^verbatim>\<open>plt.subplots(0, 1)\<close> raises \<^verbatim>\<open>ValueError\<close>;
  \<^verbatim>\<open>plt.subplots(1, 1)\<close> returns a single \<^verbatim>\<open>Axes\<close>, not an array, so
  that \<^verbatim>\<open>axs[i]\<close> raises \<^verbatim>\<open>TypeError\<close> in the first iteration,
  before the forecast is read; with two groups or more \<^verbatim>\<open>axs\<close> is an array
  with an entry for every group and the loop runs through.
\<close>

definition plot_cell ::
  "int \<Rightarrow> (string, 'v, 'c) frame \<Rightarrow> (string, 'v, 'c) frame \<Rightarrow> 'v forecast_row list \<Rightarrow>
     error + (string \<times> 'v aligned) list" where
  "plot_cell history input_tbl ground_truth_tbl df_out =
     (let num_plots = length (groupby_id input_tbl)
      in if num_plots = 0 then Inl ValueError
         else if num_plots = 1 then Inl TypeError
         else Inr (align history input_tbl ground_truth_tbl df_out))"

section \<open>Sample data\<close>

text \<open>
  A series to run the cells on: \<open>n\<close> hourly rows from 2011-01-01T00:00:00 on (hour
  359400 since 1970), as the loading cell writes them. The store \<open>fresh_store series\<close>
  is the notebook before the extraction cell has run: it holds the series and nothing
  else.
\<close>

definition hourly_row :: "nat \<Rightarrow> (string, int, unit) row" where
  "hourly_row k =
     \<lparr>dteday = isoformat ((359400 + int k) * hour_ns), hr = int (k mod 24),
      casual = Some (int k), registered = Some (2 * int k), id_column = None, others = ()\<rparr>"

definition hourly_series :: "nat \<Rightarrow> (string, int, unit) frame" where
  "hourly_series n = map hourly_row [0..<n]"

text \<open>Rows of a window table and of a forecast response, for the plotting cell.\<close>

definition tagged_row :: "string \<Rightarrow> string \<Rightarrow> int \<Rightarrow> (string, int, unit) row" where
  "tagged_row k ts v =
     \<lparr>dteday = ts, hr = 0, casual = Some v, registered = Some 0, id_column = Some k,
      others = ()\<rparr>"

definition fc_row :: "string \<Rightarrow> string \<Rightarrow> int \<Rightarrow> int forecast_row" where
  "fc_row k ts v = \<lparr>fc_id = k, fc_dteday = ts, fc_casual = Some v, fc_registered = Some 0\<rparr>"

text \<open>
  Two context windows of two rows, their future windows of three rows, and a forecast
  response on the timestamps of the future windows.
\<close>

definition sample_input :: "(string, int, unit) frame" where
  "sample_input =
     [tagged_row ''id_0'' ''2011-01-01T00:00:00'' 16,
      tagged_row ''id_0'' ''2011-01-01T01:00:00'' 40,
      tagged_row ''id_5'' ''2011-01-01T05:00:00'' 1,
      tagged_row ''id_5'' ''2011-01-01T06:00:00'' 2]"

definition sample_ground_truth :: "(string, int, unit) frame" where
  "sample_ground_truth =
     [tagged_row ''id_0'' ''2011-01-01T02:00:00'' 32,
      tagged_row ''id_0'' ''2011-01-01T03:00:00'' 13,
      tagged_row ''id_0'' ''2011-01-01T04:00:00'' 1,
      tagged_row ''id_5'' ''2011-01-01T07:00:00'' 3,
      tagged_row ''id_5'' ''2011-01-01T08:00:00'' 8,
      tagged_row ''id_5'' ''2011-01-01T09:00:00'' 14]"

definition sample_forecast :: "int forecast_row list" where
  "sample_forecast =
     [fc_row ''id_0'' ''2011-01-01T02:00:00'' 30,
      fc_row ''id_0'' ''2011-01-01T03:00:00'' 11,
      fc_row ''id_0'' ''2011-01-01T04:00:00'' 2,
      fc_row ''id_5'' ''2011-01-01T07:00:00'' 4,
      fc_row ''id_5'' ''2011-01-01T08:00:00'' 9,
      fc_row ''id_5'' ''2011-01-01T09:00:00'' 12]"

definition fresh_store :: "('t, 'v, 'c) frame \<Rightarrow> ('t, 'v, 'c) nb" where
  "fresh_store series = \<lparr>input_df = series, objs = [], input_data = [], ground_truth_data = []\<rparr>"

section \<open>Evaluation of the decimal form\<close>

text \<open>
  The recursion equation of \<open>str_nat\<close> unfolds without end under the simplifier; it is
  replaced by its instances on numerals.
\<close>

declare str_nat.simps [simp del]

lemma str_nat_numeral [simp]:
  "str_nat (numeral k) =
     (if numeral k < (10::nat) then [digit (numeral k)]
      else str_nat (numeral k div 10) @ [digit (numeral k mod 10)])"
  by (rule str_nat.simps)

lemma str_nat_0 [simp]: "str_nat 0 = [digit 0]"
  by (simp add: str_nat.simps)

lemma str_nat_1 [simp]: "str_nat (Suc 0) = [digit 1]"
  by (simp add: str_nat.simps)

text \<open>What \<open>str_nat\<close> writes is the decimal form: read back, it gives the number.\<close>

lemma digit_value_digit:
  assumes "d < 10"
  shows "digit_value (digit d) = d"
proof -
  from assms have "d \<in> {0, 1, 2, 3, 4, 5, 6, 7, 8, 9}"
    by auto
  then show ?thesis
    by (auto simp: digit_def digit_value_def)
qed

lemma decimal_value_snoc: "decimal_value (ds @ [c]) = 10 * decimal_value ds + digit_value c"
  by (simp add: decimal_value_def)

lemma decimal_value_str_nat: "decimal_value (str_nat n) = n"
proof (induction n rule: str_nat.induct)
  case (1 n)
  show ?case
  proof (cases "n < 10")
    case True
    then show ?thesis
      by (simp add: str_nat.simps [of n] decimal_value_def digit_value_digit)
  next
    case False
    with "1" have "decimal_value (str_nat (n div 10)) = n div 10"
      by simp
    with False show ?thesis
      by (simp add: str_nat.simps [of n] decimal_value_snoc digit_value_digit)
  qed
qed

lemma str_int_nonneg: "0 \<le> i \<Longrightarrow> str_int i = str_nat (nat i)"
  by (simp add: str_int_def)

section \<open>Slices\<close>

lemma slice_bound_nonneg: "0 \<le> k \<Longrightarrow> slice_bound n k = min (nat k) n"
  by (simp add: slice_bound_def)

lemma iloc_nonneg:
  "0 \<le> a \<Longrightarrow> 0 \<le> b \<Longrightarrow> iloc xs a b = take (nat b - nat a) (drop (nat a) xs)"
  by (simp add: iloc_def slice_bound_nonneg Let_def min_def)

lemma length_set_id [simp]: "length (set_id v fr) = length fr"
  by (simp add: set_id_def)

lemma length_iloc_nonneg:
  assumes "0 \<le> a" and "0 \<le> b"
  shows "length (iloc xs a b) = card ({a..<b} \<inter> {0..<int (length xs)})"
proof -
  have "{a..<b} \<inter> {0..<int (length xs)} = {a..<min b (int (length xs))}"
    using assms by auto
  then have "card ({a..<b} \<inter> {0..<int (length xs)}) = nat (min b (int (length xs)) - a)"
    by simp
  moreover have "length (iloc xs a b) = nat (min b (int (length xs)) - a)"
    using assms by (simp add: iloc_nonneg min_def) linarith
  ultimately show ?thesis by simp
qed

lemma context_window_nonneg:
  "0 \<le> cl \<Longrightarrow> 0 \<le> i \<Longrightarrow>
     context_window cl series i = set_id (id_of i) (take (nat cl) (drop (nat i) series))"
  by (simp add: context_window_def iloc_nonneg nat_add_distrib)

lemma future_window_nonneg:
  "0 \<le> cl \<Longrightarrow> 0 \<le> pl \<Longrightarrow> 0 \<le> i \<Longrightarrow>
     future_window cl pl series i =
       set_id (id_of i) (take (nat pl) (drop (nat (i + cl)) series))"
  by (simp add: future_window_def iloc_nonneg nat_add_distrib)

lemma set_id_tag:
  "set_id (id_of i) fr = map (\<lambda>r. r\<lparr>id_column := Some (''id_'' @ str_int i)\<rparr>) fr"
  by (simp add: set_id_def id_of_def)

lemma take_all_drop:
  "length xs \<le> a + n \<Longrightarrow> take n (drop a xs) = drop a xs"
  by simp

lemma length_context_window_valid:
  "0 \<le> cl \<Longrightarrow> 0 \<le> pl \<Longrightarrow> 0 \<le> i \<Longrightarrow> i + cl + pl \<le> int (length series) \<Longrightarrow>
     length (context_window cl series i) = nat cl"
  by (simp add: context_window_def iloc_nonneg)

lemma length_future_window_valid:
  "0 \<le> cl \<Longrightarrow> 0 \<le> pl \<Longrightarrow> 0 \<le> i \<Longrightarrow> i + cl + pl \<le> int (length series) \<Longrightarrow>
     length (future_window cl pl series i) = nat pl"
  by (simp add: future_window_def iloc_nonneg)

section \<open>The loop, step by step\<close>

text \<open>
  One iteration allocates two objects and appends their addresses; the address it writes
  to is the one it has just allocated.
\<close>

lemma loop_body_eq:
  "loop_body cl pl s i =
     s\<lparr>objs := objs s @ [context_window cl (input_df s) i, future_window cl pl (input_df s) i],
       input_data := input_data s @ [Obj (length (objs s))],
       ground_truth_data := ground_truth_data s @ [Obj (Suc (length (objs s)))]\<rparr>"
  by (simp add: loop_body_def iloc_copy_def setitem_id_def deref_def context_window_def
      future_window_def Let_def nth_append list_update_append)

text \<open>A column assignment through the address of the series would change the series.\<close>

lemma setitem_id_InputDf: "input_df (setitem_id InputDf v s) = set_id v (input_df s)"
  by (simp add: setitem_id_def)

lemma length_window_pairs: "length (window_pairs cl pl series is) = 2 * length is"
  by (induction "is") (simp_all add: window_pairs_def)

lemma window_pairs_snoc:
  "window_pairs cl pl series (is @ [i]) =
     window_pairs cl pl series is @ [context_window cl series i, future_window cl pl series i]"
  by (simp add: window_pairs_def)

lemma nth_window_pairs:
  "j < length is \<Longrightarrow>
     window_pairs cl pl series is ! (2 * j) = context_window cl series (is ! j) \<and>
     window_pairs cl pl series is ! Suc (2 * j) = future_window cl pl series (is ! j)"
proof (induction "is" arbitrary: j)
  case Nil
  then show ?case by simp
next
  case (Cons i "is")
  show ?case
  proof (cases j)
    case 0
    then show ?thesis by (simp add: window_pairs_def)
  next
    case (Suc k)
    with Cons.prems have "k < length is" by simp
    from Cons.IH [OF this] Suc show ?thesis by (simp add: window_pairs_def)
  qed
qed

lemma foldl_loop_body:
  "foldl (loop_body cl pl) s is = s' \<Longrightarrow>
     input_df s' = input_df s \<and>
     objs s' = objs s @ window_pairs cl pl (input_df s) is \<and>
     input_data s' = input_data s @ map (\<lambda>j. Obj (length (objs s) + 2 * j)) [0..<length is] \<and>
     ground_truth_data s' =
       ground_truth_data s @ map (\<lambda>j. Obj (Suc (length (objs s) + 2 * j))) [0..<length is]"
proof (induction "is" arbitrary: s' rule: rev_induct)
  case Nil
  then show ?case by (auto simp: window_pairs_def)
next
  case (snoc i "is")
  define t where "t = foldl (loop_body cl pl) s is"
  from snoc.IH [of t] t_def have ih:
    "input_df t = input_df s"
    "objs t = objs s @ window_pairs cl pl (input_df s) is"
    "input_data t = input_data s @ map (\<lambda>j. Obj (length (objs s) + 2 * j)) [0..<length is]"
    "ground_truth_data t =
       ground_truth_data s @ map (\<lambda>j. Obj (Suc (length (objs s) + 2 * j))) [0..<length is]"
    by simp_all
  from snoc.prems t_def have s': "s' = loop_body cl pl t i" by simp
  show ?case
    unfolding s' loop_body_eq
    by (simp add: ih window_pairs_snoc length_window_pairs)
qed

lemma window_loop_fields:
  "input_df (window_loop cl pl is s) = input_df s"
  "objs (window_loop cl pl is s) = objs s @ window_pairs cl pl (input_df s) is"
  "input_data (window_loop cl pl is s) = map (\<lambda>j. Obj (length (objs s) + 2 * j)) [0..<length is]"
  "ground_truth_data (window_loop cl pl is s) =
     map (\<lambda>j. Obj (Suc (length (objs s) + 2 * j))) [0..<length is]"
  using foldl_loop_body [of cl pl "s\<lparr>input_data := [], ground_truth_data := []\<rparr>" "is", OF refl]
  by (simp_all add: window_loop_def)

lemma window_loop_windows:
  "map (deref (window_loop cl pl is s)) (input_data (window_loop cl pl is s)) =
     map (context_window cl (input_df s)) is"
  "map (deref (window_loop cl pl is s)) (ground_truth_data (window_loop cl pl is s)) =
     map (future_window cl pl (input_df s)) is"
  by (rule nth_equalityI;
      simp add: window_loop_fields deref_def nth_append nth_window_pairs)+

lemma window_cell_eq:
  "window_cell cl pl is s =
     (if is = [] then Inl ValueError
      else Inr \<lparr>input_table = concat (map (context_window cl (input_df s)) is),
                ground_truth_table = concat (map (future_window cl pl (input_df s)) is),
                store = window_loop cl pl is s\<rparr>)"
  unfolding window_cell_def Let_def window_loop_windows pd_concat_def by simp

lemma window_loop_nth:
  assumes "j < length is"
  shows "deref (window_loop cl pl is s) (input_data (window_loop cl pl is s) ! j) =
           context_window cl (input_df s) (is ! j)"
    and "deref (window_loop cl pl is s) (ground_truth_data (window_loop cl pl is s) ! j) =
           future_window cl pl (input_df s) (is ! j)"
  using assms
  by (simp_all add: window_loop_fields deref_def nth_append nth_window_pairs)

section \<open>The loaded series\<close>

lemma set_dteday_map:
  "set_dteday fr (map g fr) =
     map (\<lambda>r. \<lparr>dteday = g r, hr = hr r, casual = casual r, registered = registered r,
               id_column = id_column r, others = others r\<rparr>) fr"
  by (induction fr) (simp_all add: set_dteday_def)

lemma apply_col_map_all:
  "(\<And>x. x \<in> set xs \<Longrightarrow> f (h x) = Inr (g x)) \<Longrightarrow> apply_col f (map h xs) = Inr (map g xs)"
  by (induction xs) simp_all

lemma zip_columns: "zip (map f xs) (map g xs) = map (\<lambda>x. (f x, g x)) xs"
  by (induction xs) simp_all

lemma fix_hours_in_bounds:
  assumes "\<And>r. r \<in> set fr \<Longrightarrow>
             int64_ns (hr r * hour_ns) \<and> int64_ns (dteday r + hr r * hour_ns)"
  shows "fix_hours fr =
      Inr (map (\<lambda>r. \<lparr>dteday = dteday r + hr r * hour_ns, hr = hr r, casual = casual r,
                     registered = registered r, id_column = id_column r,
                     others = others r\<rparr>) fr)"
proof -
  have deltas: "apply_col Timedelta_hr (map hr fr) = Inr (map (\<lambda>r. hr r * hour_ns) fr)"
    using assms by (intro apply_col_map_all) (simp add: Timedelta_hr_def)
  have "zip (map dteday fr) (map (\<lambda>r. hr r * hour_ns) fr) =
      map (\<lambda>r. (dteday r, hr r * hour_ns)) fr"
    by (rule zip_columns)
  moreover have "apply_col (\<lambda>(ts, td). Timestamp_add ts td)
      (map (\<lambda>r. (dteday r, hr r * hour_ns)) fr) = Inr (map (\<lambda>r. dteday r + hr r * hour_ns) fr)"
    using assms by (intro apply_col_map_all) (simp add: Timestamp_add_def)
  ultimately show ?thesis
    using set_dteday_map [of fr "\<lambda>r. dteday r + hr r * hour_ns"]
    by (simp add: fix_hours_def deltas)
qed

lemma load_series_in_bounds:
  assumes "\<And>r. r \<in> set fr \<Longrightarrow>
             int64_ns (hr r * hour_ns) \<and> int64_ns (dteday r + hr r * hour_ns)"
  shows "load_series fr =
      Inr (map (\<lambda>r. \<lparr>dteday = isoformat (dteday r + hr r * hour_ns), hr = hr r,
                     casual = casual r, registered = registered r, id_column = id_column r,
                     others = others r\<rparr>) fr)"
proof -
  have "to_isoformat gr =
      map (\<lambda>r. \<lparr>dteday = isoformat (dteday r), hr = hr r, casual = casual r,
                registered = registered r, id_column = id_column r, others = others r\<rparr>) gr"
    for gr :: "(timestamp, 'a, 'b) frame"
    unfolding to_isoformat_def
    using set_dteday_map [of gr "isoformat \<circ> dteday"] by simp
  then show ?thesis
    by (simp add: load_series_def fix_hours_in_bounds [OF assms] comp_def)
qed

text \<open>When the cell returns, every hour offset and every sum was in range.\<close>

lemma apply_col_Inr:
  "apply_col f xs = Inr ys \<Longrightarrow>
     length ys = length xs \<and> (\<forall>i < length xs. f (xs ! i) = Inr (ys ! i))"
proof (induction xs arbitrary: ys)
  case Nil
  then show ?case by simp
next
  case (Cons x xs)
  from Cons.prems obtain y ys' where parts: "f x = Inr y" "apply_col f xs = Inr ys'" "ys = y # ys'"
    by (auto split: sum.splits)
  from Cons.IH [OF parts(2)] parts(1,3) show ?case
    by (auto simp: nth_Cons split: nat.splits)
qed

lemma load_series_Inr_bounds:
  assumes "load_series fr = Inr loaded" and "r \<in> set fr"
  shows "int64_ns (hr r * hour_ns) \<and> int64_ns (dteday r + hr r * hour_ns)"
proof -
  from assms(1) obtain deltas col
    where deltas: "apply_col Timedelta_hr (map hr fr) = Inr deltas"
      and col: "apply_col (\<lambda>(ts, td). Timestamp_add ts td) (zip (map dteday fr) deltas) = Inr col"
    by (auto simp: load_series_def fix_hours_def split: sum.splits)
  from assms(2) obtain i where i: "i < length fr" "fr ! i = r"
    by (auto simp: in_set_conv_nth)
  from apply_col_Inr [OF deltas] i(1)
  have len: "length deltas = length fr" and td: "Timedelta_hr (hr (fr ! i)) = Inr (deltas ! i)"
    by simp_all
  from td have delta: "int64_ns (hr r * hour_ns)" "deltas ! i = hr r * hour_ns"
    by (auto simp: Timedelta_hr_def i(2) split: if_splits)
  from apply_col_Inr [OF col] i(1) len
  have "Timestamp_add (dteday (fr ! i)) (deltas ! i) = Inr (col ! i)"
    by simp
  then have "int64_ns (dteday r + hr r * hour_ns)"
    by (auto simp: Timestamp_add_def i(2) delta(2) split: if_splits)
  with delta(1) show ?thesis by simp
qed

lemma load_series_Inr:
  assumes "load_series fr = Inr loaded"
  shows "loaded =
      map (\<lambda>r. \<lparr>dteday = isoformat (dteday r + hr r * hour_ns), hr = hr r,
                casual = casual r, registered = registered r, id_column = id_column r,
                others = others r\<rparr>) fr"
  using assms load_series_in_bounds [of fr, OF load_series_Inr_bounds [OF assms]]
  by simp

text \<open>An hour count that does not fit ends the cell.\<close>

lemma load_series_out_of_bounds:
  "load_series [\<lparr>dteday = 14975 * day_ns, hr = 9223372036854775807, casual = Some (3::int),
      registered = Some 13, id_column = None, others = ()\<rparr>] = Inl OutOfBoundsTimedelta"
  by (simp add: load_series_def fix_hours_def Timedelta_hr_def int64_ns_def hour_ns_def)

lemma midnight_plus_hours:
  assumes "0 \<le> h" and "h < 24"
  shows "(d * day_ns + h * hour_ns) div day_ns = d"
    and "(d * day_ns + h * hour_ns) mod day_ns = h * hour_ns"
proof -
  have range: "0 \<le> h * hour_ns" "h * hour_ns < day_ns"
    using assms by (simp_all add: hour_ns_def day_ns_def)
  have pos: "0 < day_ns" by (simp add: day_ns_def)
  have "(d * day_ns + h * hour_ns) div day_ns = d + (h * hour_ns) div day_ns"
    using pos by simp
  with range show "(d * day_ns + h * hour_ns) div day_ns = d"
    by simp
  have "(d * day_ns + h * hour_ns) mod day_ns = (h * hour_ns) mod day_ns"
    by simp
  with range show "(d * day_ns + h * hour_ns) mod day_ns = h * hour_ns"
    by simp
qed

lemmas pad_eval = pad_def zero_fill_def digit_def

lemma pad_2_0: "pad 2 0 = ''00''"
  by (simp add: pad_eval)

lemma iso_time_whole_hour:
  assumes "0 \<le> h"
  shows "iso_time (h * hour_ns) = pad 2 h @ '':00:00''"
proof -
  have secs: "h * hour_ns div 1000000000 = h * 3600" and frac: "h * hour_ns mod 1000000000 = 0"
    by (simp_all add: hour_ns_def)
  have "h * 3600 div 3600 = h" "h * 3600 div 60 mod 60 = 0" "h * 3600 mod 60 = 0"
    by simp_all
  then show ?thesis
    by (simp add: iso_time_def Let_def secs frac pad_2_0)
qed

lemma isoformat_midnight_plus_hours:
  assumes "0 \<le> h" and "h < 24"
  shows "isoformat (d * day_ns + h * hour_ns) = iso_date d @ ''T'' @ pad 2 h @ '':00:00''"
  unfolding isoformat_def midnight_plus_hours [OF assms] iso_time_whole_hour [OF assms(1)]
  by simp

lemmas civil_defs =
  civil_from_days_def civil_of_era_def civil_of_doe_def civil_of_yoe_def civil_of_doy_def
  month_of_def

lemma iso_date_2011_01_01: "iso_date 14975 = ''2011-01-01''"
proof -
  have "civil_from_days 14975 = (2011, 1, 1)"
    by (simp add: civil_defs)
  then show ?thesis
    by (simp add: iso_date_def pad_eval)
qed

lemma iso_date_2012_02_29: "iso_date 15399 = ''2012-02-29''"
proof -
  have "civil_from_days 15399 = (2012, 2, 29)"
    by (simp add: civil_defs)
  then show ?thesis
    by (simp add: iso_date_def pad_eval)
qed

lemma iso_date_2012_12_31: "iso_date 15705 = ''2012-12-31''"
proof -
  have "civil_from_days 15705 = (2012, 12, 31)"
    by (simp add: civil_defs)
  then show ?thesis
    by (simp add: iso_date_def pad_eval)
qed

text \<open>The sign of a year before year 0 is written.\<close>

lemma iso_date_negative_year: "iso_date (- 719537) = ''-001-12-23''"
proof -
  have "civil_from_days (- 719537) = (- 1, 12, 23)"
    by (simp add: civil_defs)
  moreover have "replicate 2 CHR ''0'' = ''00''"
    by (simp add: numeral_2_eq_2)
  ultimately show ?thesis
    by (simp add: iso_date_def pad_eval)
qed

lemma length_hourly_series [simp]: "length (hourly_series n) = n"
  by (simp add: hourly_series_def)

lemma nth_hourly_series: "k < n \<Longrightarrow> hourly_series n ! k = hourly_row k"
  by (simp add: hourly_series_def)

lemma drop_hourly_series: "drop k (hourly_series n) = map hourly_row [k..<n]"
  by (simp add: hourly_series_def drop_map)

lemma input_df_fresh_store [simp]: "input_df (fresh_store series) = series"
  by (simp add: fresh_store_def)

section \<open>Windows of valid start offsets\<close>

text \<open>
  Claim C2. When the context length and the prediction length are not negative and every
  start offset \<open>off\<close> has \<open>0 \<le> off\<close> and
  \<open>off + context_length + prediction_length \<le> len(series)\<close>, the loop leaves one context
  window and one future window for each offset, every context window has exactly
  \<open>context_length\<close> rows and every future window exactly \<open>prediction_length\<close> rows; and
  the cell returns when there is an offset at all. An offset that reaches the end of the
  series exactly is among the valid ones.
\<close>

theorem one_window_pair_per_offset:
  assumes "0 \<le> context_length" and "0 \<le> prediction_length"
    and "\<forall>off \<in> set start_offsets.
           0 \<le> off \<and> off + context_length + prediction_length \<le> int (length (input_df s))"
    and "s' = window_loop context_length prediction_length start_offsets s"
  shows "length (input_data s') = length start_offsets \<and>
         length (ground_truth_data s') = length start_offsets \<and>
         (\<forall>a \<in> set (input_data s'). int (length (deref s' a)) = context_length) \<and>
         (\<forall>a \<in> set (ground_truth_data s'). int (length (deref s' a)) = prediction_length) \<and>
         (start_offsets \<noteq> [] \<longrightarrow>
            (\<exists>out. window_cell context_length prediction_length start_offsets s = Inr out))"
proof -
  have len: "length (input_data s') = length start_offsets"
    "length (ground_truth_data s') = length start_offsets"
    using assms(4) by (simp_all add: window_loop_fields)
  have "\<forall>w \<in> set (map (deref s') (input_data s')). int (length w) = context_length"
    using assms by (auto simp: window_loop_windows length_context_window_valid)
  then have ctx: "\<forall>a \<in> set (input_data s'). int (length (deref s' a)) = context_length"
    by simp
  have "\<forall>w \<in> set (map (deref s') (ground_truth_data s')). int (length w) = prediction_length"
    using assms by (auto simp: window_loop_windows length_future_window_valid)
  then have fut: "\<forall>a \<in> set (ground_truth_data s'). int (length (deref s' a)) = prediction_length"
    by simp
  have "start_offsets \<noteq> [] \<longrightarrow>
          (\<exists>out. window_cell context_length prediction_length start_offsets s = Inr out)"
    by (simp add: window_cell_eq)
  with len ctx fut show ?thesis by blast
qed

theorem one_window_pair_per_offset_witness:
  "(19468::int) + 512 + 20 = int (length (input_df (fresh_store (hourly_series 20000)))) \<and>
   length (input_data (window_loop 512 20 [2173, 19468] (fresh_store (hourly_series 20000)))) = 2 \<and>
   length (ground_truth_data
     (window_loop 512 20 [2173, 19468] (fresh_store (hourly_series 20000)))) = 2 \<and>
   map (\<lambda>a. length (deref (window_loop 512 20 [2173, 19468] (fresh_store (hourly_series 20000))) a))
     (input_data (window_loop 512 20 [2173, 19468] (fresh_store (hourly_series 20000)))) =
     [512, 512] \<and>
   map (\<lambda>a. length (deref (window_loop 512 20 [2173, 19468] (fresh_store (hourly_series 20000))) a))
     (ground_truth_data (window_loop 512 20 [2173, 19468] (fresh_store (hourly_series 20000)))) =
     [20, 20] \<and>
   (\<exists>out. window_cell 512 20 [2173, 19468] (fresh_store (hourly_series 20000)) = Inr out)"
proof -
  let ?s = "fresh_store (hourly_series 20000)"
  let ?s' = "window_loop 512 20 [2173, 19468] ?s"
  have hyp: "\<forall>off \<in> set [2173, 19468::int].
      0 \<le> off \<and> off + 512 + 20 \<le> int (length (input_df ?s))"
    by simp
  note inst = one_window_pair_per_offset [of 512 20 "[2173, 19468]" ?s ?s', OF _ _ hyp refl]
  have fields: "input_data ?s' = [Obj 0, Obj 2]" "ground_truth_data ?s' = [Obj 1, Obj 3]"
    by (simp_all add: window_loop_fields fresh_store_def upt_rec)
  from inst show ?thesis
    by (simp add: fields)
qed

text \<open>
  Claim C3. For a valid start offset \<open>off\<close>, the \<open>j\<close>-th of the given offsets, the
  \<open>j\<close>-th context window is the contiguous slice
  \<open>series[off : off + context_length]\<close> and the \<open>j\<close>-th future window is the slice
  \<open>series[off + context_length : off + context_length + prediction_length]\<close>: they have
  the full lengths, their rows are the rows of the series at these positions, in order,
  but for the id column, and the id column of every row is the string \<open>id_\<close> followed by
  the decimal form of \<open>off\<close>. The combined tables are the windows one after the other in
  the order of the offsets.
\<close>

theorem window_contents:
  assumes "0 \<le> context_length" and "0 \<le> prediction_length"
    and "j < length start_offsets" and "off = start_offsets ! j"
    and "0 \<le> off"
    and "off + context_length + prediction_length \<le> int (length (input_df s))"
    and "window_cell context_length prediction_length start_offsets s = Inr out"
    and "ctx = deref (store out) (input_data (store out) ! j)"
    and "fut = deref (store out) (ground_truth_data (store out) ! j)"
  shows "ctx = map (\<lambda>r. r\<lparr>id_column := Some (''id_'' @ str_int off)\<rparr>)
                 (take (nat context_length) (drop (nat off) (input_df s))) \<and>
         fut = map (\<lambda>r. r\<lparr>id_column := Some (''id_'' @ str_int off)\<rparr>)
                 (take (nat prediction_length)
                    (drop (nat off + nat context_length) (input_df s))) \<and>
         length ctx = nat context_length \<and> length fut = nat prediction_length \<and>
         (\<forall>k < nat context_length.
            ctx ! k = (input_df s ! (nat off + k))\<lparr>id_column := Some (''id_'' @ str_int off)\<rparr>) \<and>
         (\<forall>k < nat prediction_length.
            fut ! k = (input_df s ! (nat off + nat context_length + k))
                        \<lparr>id_column := Some (''id_'' @ str_int off)\<rparr>) \<and>
         (\<forall>r \<in> set ctx \<union> set fut. id_column r = Some (''id_'' @ str_int off)) \<and>
         decimal_value (str_int off) = nat off \<and>
         input_table out = concat (map (deref (store out)) (input_data (store out))) \<and>
         ground_truth_table out =
           concat (map (deref (store out)) (ground_truth_data (store out)))"
proof -
  let ?tag = "\<lambda>r::('a, 'b, 'c) row. r\<lparr>id_column := Some (''id_'' @ str_int off)\<rparr>"
  let ?series = "input_df s"
  from assms(7) have out: "store out = window_loop context_length prediction_length start_offsets s"
    "input_table out = concat (map (context_window context_length ?series) start_offsets)"
    "ground_truth_table out =
       concat (map (future_window context_length prediction_length ?series) start_offsets)"
    by (auto simp: window_cell_eq split: if_splits)
  have "ctx = context_window context_length ?series off"
    and "fut = future_window context_length prediction_length ?series off"
    using assms(3,4) by (simp_all add: assms(8,9) out(1) window_loop_nth)
  then have ctx: "ctx = map ?tag (take (nat context_length) (drop (nat off) ?series))"
    and fut: "fut = map ?tag (take (nat prediction_length)
        (drop (nat off + nat context_length) ?series))"
    using assms(1,2,5)
    by (simp_all add: context_window_nonneg future_window_nonneg set_id_tag nat_add_distrib)
  from assms(1,2,5,6)
  have fits: "nat off + nat context_length + nat prediction_length \<le> length ?series"
    by linarith
  then have len: "length ctx = nat context_length" "length fut = nat prediction_length"
    by (simp_all add: ctx fut)
  have rows_ctx: "ctx ! k = ?tag (?series ! (nat off + k))" if "k < nat context_length" for k
    using that fits by (simp add: ctx)
  have rows_fut: "fut ! k = ?tag (?series ! (nat off + nat context_length + k))"
    if "k < nat prediction_length" for k
    using that fits by (simp add: fut)
  have ids: "\<forall>r \<in> set ctx \<union> set fut. id_column r = Some (''id_'' @ str_int off)"
    by (auto simp: ctx fut)
  have dec: "decimal_value (str_int off) = nat off"
    using assms(5) by (simp add: str_int_nonneg decimal_value_str_nat)
  have tables: "input_table out = concat (map (deref (store out)) (input_data (store out)))"
    "ground_truth_table out = concat (map (deref (store out)) (ground_truth_data (store out)))"
    by (simp_all add: out window_loop_windows)
  from ctx fut len rows_ctx rows_fut ids dec tables show ?thesis
    by blast
qed

theorem window_contents_witness:
  "(2173::int) + 512 + 20 \<le> int (length (input_df (fresh_store (hourly_series 20000)))) \<and>
   deref (window_loop 512 20 [2173, 19468] (fresh_store (hourly_series 20000)))
     (input_data (window_loop 512 20 [2173, 19468] (fresh_store (hourly_series 20000))) ! 0) =
       map (\<lambda>r. r\<lparr>id_column := Some ''id_2173''\<rparr>) (take 512 (drop 2173 (hourly_series 20000))) \<and>
   deref (window_loop 512 20 [2173, 19468] (fresh_store (hourly_series 20000)))
     (ground_truth_data (window_loop 512 20 [2173, 19468] (fresh_store (hourly_series 20000))) ! 0) =
       map (\<lambda>r. r\<lparr>id_column := Some ''id_2173''\<rparr>) (take 20 (drop 2685 (hourly_series 20000))) \<and>
   deref (window_loop 512 20 [2173, 19468] (fresh_store (hourly_series 20000)))
     (input_data (window_loop 512 20 [2173, 19468] (fresh_store (hourly_series 20000))) ! 0) ! 0 =
       (hourly_row 2173)\<lparr>id_column := Some ''id_2173''\<rparr> \<and>
   deref (window_loop 512 20 [2173, 19468] (fresh_store (hourly_series 20000)))
     (ground_truth_data (window_loop 512 20 [2173, 19468] (fresh_store (hourly_series 20000))) ! 0) ! 19 =
       (hourly_row 2704)\<lparr>id_column := Some ''id_2173''\<rparr> \<and>
   map id_column
     (deref (window_loop 512 20 [2173, 19468] (fresh_store (hourly_series 20000)))
        (ground_truth_data (window_loop 512 20 [2173, 19468] (fresh_store (hourly_series 20000))) ! 0)) =
     replicate 20 (Some ''id_2173'')"
proof -
  let ?s = "fresh_store (hourly_series 20000)"
  let ?s' = "window_loop 512 20 [2173, 19468] ?s"
  let ?out = "\<lparr>input_table = concat (map (context_window 512 (hourly_series 20000)) [2173, 19468]),
          ground_truth_table = concat (map (future_window 512 20 (hourly_series 20000)) [2173, 19468]),
          store = ?s'\<rparr>"
  let ?ctx = "deref ?s' (input_data ?s' ! 0)"
  let ?fut = "deref ?s' (ground_truth_data ?s' ! 0)"
  have cell: "window_cell 512 20 [2173, 19468] ?s = Inr ?out"
    by (simp add: window_cell_eq)
  have valid: "(2173::int) + 512 + 20 \<le> int (length (input_df ?s))" by simp
  have pre: "(0::int) \<le> 512" "(0::int) \<le> 20" "0 < length [2173, 19468::int]"
    "(2173::int) = [2173, 19468] ! 0" "(0::int) \<le> 2173"
    by simp_all
  have ctx_eq: "?ctx = deref (store ?out) (input_data (store ?out) ! 0)"
    and fut_eq: "?fut = deref (store ?out) (ground_truth_data (store ?out) ! 0)"
    by simp_all
  note inst = window_contents [OF pre valid cell ctx_eq fut_eq]
  have sint: "str_int 2173 = ''2173''"
    by (simp add: str_int_def digit_def)
  have r0: "input_df ?s ! (nat 2173 + 0) = hourly_row 2173"
    and r19: "input_df ?s ! (nat 2173 + nat 512 + 19) = hourly_row 2704"
    by (simp_all add: nth_hourly_series)
  from inst [THEN conjunct1]
  have ctx: "?ctx = map (\<lambda>r. r\<lparr>id_column := Some ''id_2173''\<rparr>)
        (take 512 (drop 2173 (hourly_series 20000)))"
    by (simp add: sint)
  from inst [THEN conjunct2, THEN conjunct1]
  have fut: "?fut = map (\<lambda>r. r\<lparr>id_column := Some ''id_2173''\<rparr>)
        (take 20 (drop 2685 (hourly_series 20000)))"
    by (simp add: sint)
  note rest = inst [THEN conjunct2, THEN conjunct2, THEN conjunct2]
  from rest [THEN conjunct1] have len: "length ?fut = 20"
    by simp
  from rest [THEN conjunct2, THEN conjunct1, rule_format, of 0]
  have first: "?ctx ! 0 = (hourly_row 2173)\<lparr>id_column := Some ''id_2173''\<rparr>"
    unfolding r0 by (simp add: sint)
  from rest [THEN conjunct2, THEN conjunct2, THEN conjunct1, rule_format, of 19]
  have last: "?fut ! 19 = (hourly_row 2704)\<lparr>id_column := Some ''id_2173''\<rparr>"
    unfolding r19 by (simp add: sint)
  from rest [THEN conjunct2, THEN conjunct2, THEN conjunct2, THEN conjunct1]
  have ids: "\<forall>r \<in> set ?fut. id_column r = Some ''id_2173''"
    by (simp add: sint)
  from ids len have "map id_column ?fut = replicate 20 (Some ''id_2173'')"
    by (intro replicate_eqI) auto
  with ctx fut first last valid show ?thesis
    by blast
qed

text \<open>
  Claim C9. The extraction has no effect on the series: the object bound to
  \<^verbatim>\<open>input_df\<close> is the same list of rows after the loop and after the cell, and so
  is every object that was allocated before. The loop writes the id column only into
  the copies it has just allocated.
\<close>

theorem source_series_unchanged:
  "input_df (window_loop context_length prediction_length start_offsets s) = input_df s \<and>
   take (length (objs s)) (objs (window_loop context_length prediction_length start_offsets s)) =
     objs s \<and>
   (case window_cell context_length prediction_length start_offsets s of
      Inl e \<Rightarrow> e = ValueError \<and> start_offsets = []
    | Inr out \<Rightarrow> input_df (store out) = input_df s)"
  by (simp add: window_loop_fields window_cell_eq)

text \<open>
  Claim C8. Two runs of the extraction with the same series, start offsets, context length
  and prediction length give the same windows and the same combined tables (or both fail
  the same way), whatever else the two stores hold; so the cell can be run again on the
  store that an earlier run has left.
\<close>

theorem extraction_deterministic:
  assumes "input_df s1 = input_df s2"
  shows "map_sum (\<lambda>e. e) (\<lambda>out. (input_table out, ground_truth_table out))
           (window_cell context_length prediction_length start_offsets s1) =
         map_sum (\<lambda>e. e) (\<lambda>out. (input_table out, ground_truth_table out))
           (window_cell context_length prediction_length start_offsets s2) \<and>
         map (deref (window_loop context_length prediction_length start_offsets s1))
           (input_data (window_loop context_length prediction_length start_offsets s1)) =
         map (deref (window_loop context_length prediction_length start_offsets s2))
           (input_data (window_loop context_length prediction_length start_offsets s2)) \<and>
         map (deref (window_loop context_length prediction_length start_offsets s1))
           (ground_truth_data (window_loop context_length prediction_length start_offsets s1)) =
         map (deref (window_loop context_length prediction_length start_offsets s2))
           (ground_truth_data (window_loop context_length prediction_length start_offsets s2))"
  unfolding window_loop_windows window_cell_eq using assms by simp

theorem extraction_deterministic_witness:
  "input_df (fresh_store (hourly_series 6)) =
     input_df (window_loop 3 2 [0] (fresh_store (hourly_series 6))) \<and>
   fresh_store (hourly_series 6) \<noteq> window_loop 3 2 [0] (fresh_store (hourly_series 6)) \<and>
   map_sum (\<lambda>e. e) (\<lambda>out. (input_table out, ground_truth_table out))
     (window_cell 3 2 [0, 1] (fresh_store (hourly_series 6))) =
   map_sum (\<lambda>e. e) (\<lambda>out. (input_table out, ground_truth_table out))
     (window_cell 3 2 [0, 1] (window_loop 3 2 [0] (fresh_store (hourly_series 6))))"
proof -
  let ?s1 = "fresh_store (hourly_series 6)"
  let ?s2 = "window_loop 3 2 [0] ?s1"
  have same: "input_df ?s1 = input_df ?s2"
    by (simp add: window_loop_fields)
  have "input_data ?s1 \<noteq> input_data ?s2"
    by (simp add: window_loop_fields fresh_store_def)
  then have differ: "?s1 \<noteq> ?s2" by auto
  from extraction_deterministic [of ?s1 ?s2 3 2 "[0, 1]", OF same] same differ
  show ?thesis by simp
qed

text \<open>
  Claim C10. For start offsets that are not negative (and lengths that are not negative)
  the cell returns, for every non-empty list of offsets, and every window holds exactly
  the rows of its slice that lie inside the series: a window that reaches past the end is
  cut there, down to no row at all, and nothing is raised.
\<close>

theorem windows_truncated_without_error:
  assumes "0 \<le> context_length" and "0 \<le> prediction_length"
    and "start_offsets \<noteq> []" and "\<forall>off \<in> set start_offsets. 0 \<le> off"
  shows "\<exists>out. window_cell context_length prediction_length start_offsets s = Inr out \<and>
           (\<forall>j < length start_offsets.
              length (deref (store out) (input_data (store out) ! j)) =
                card ({start_offsets ! j ..< start_offsets ! j + context_length} \<inter>
                      {0 ..< int (length (input_df s))}) \<and>
              length (deref (store out) (ground_truth_data (store out) ! j)) =
                card ({start_offsets ! j + context_length ..<
                        start_offsets ! j + context_length + prediction_length} \<inter>
                      {0 ..< int (length (input_df s))}))"
proof -
  let ?out = "\<lparr>input_table = concat (map (context_window context_length (input_df s)) start_offsets),
               ground_truth_table =
                 concat (map (future_window context_length prediction_length (input_df s))
                   start_offsets),
               store = window_loop context_length prediction_length start_offsets s\<rparr>"
  have cell: "window_cell context_length prediction_length start_offsets s = Inr ?out"
    using assms(3) by (simp add: window_cell_eq)
  have "length (deref (store ?out) (input_data (store ?out) ! j)) =
          card ({start_offsets ! j ..< start_offsets ! j + context_length} \<inter>
                {0 ..< int (length (input_df s))}) \<and>
        length (deref (store ?out) (ground_truth_data (store ?out) ! j)) =
          card ({start_offsets ! j + context_length ..<
                  start_offsets ! j + context_length + prediction_length} \<inter>
                {0 ..< int (length (input_df s))})"
    if j: "j < length start_offsets" for j
  proof -
    from j assms(4) have "0 \<le> start_offsets ! j" by simp
    with assms(1,2) j show ?thesis
      by (simp add: window_loop_nth context_window_def future_window_def length_iloc_nonneg)
  qed
  with cell show ?thesis by blast
qed

theorem windows_truncated_without_error_witness:
  "(\<exists>out. window_cell 3 2 [0, 4, 9] (fresh_store (hourly_series 6)) = Inr out \<and>
      map (\<lambda>a. length (deref (store out) a)) (input_data (store out)) = [3, 2, 0] \<and>
      map (\<lambda>a. length (deref (store out) a)) (ground_truth_data (store out)) = [2, 0, 0])"
proof -
  let ?s = "fresh_store (hourly_series 6)"
  have nonneg: "\<forall>off \<in> set [0, 4, 9::int]. 0 \<le> off" by simp
  from windows_truncated_without_error [of 3 2 "[0, 4, 9]" ?s, OF _ _ _ nonneg]
  obtain out where out: "window_cell 3 2 [0, 4, 9] ?s = Inr out"
    and len: "\<forall>j<3. length (deref (store out) (input_data (store out) ! j)) =
                card ({[0, 4, 9] ! j ..< [0, 4, 9] ! j + 3} \<inter> {0 ..< int (length (input_df ?s))}) \<and>
              length (deref (store out) (ground_truth_data (store out) ! j)) =
                card ({[0, 4, 9] ! j + 3 ..< [0, 4, 9] ! j + 3 + 2} \<inter>
                      {0 ..< int (length (input_df ?s))})"
    by auto
  from out have st: "store out = window_loop 3 2 [0, 4, 9] ?s"
    by (auto simp: window_cell_eq)
  have fields: "input_data (store out) = [Obj 0, Obj 2, Obj 4]"
    "ground_truth_data (store out) = [Obj 1, Obj 3, Obj 5]"
    by (simp_all add: st window_loop_fields fresh_store_def upt_rec)
  have c: "{0..<3} \<inter> {0..<6} = {0..<3::int}" "{4..<7} \<inter> {0..<6} = {4..<6::int}"
    "{9..<12} \<inter> {0..<6} = ({}::int set)" "{3..<5} \<inter> {0..<6} = {3..<5::int}"
    "{7..<9} \<inter> {0..<6} = ({}::int set)" "{12..<14} \<inter> {0..<6} = ({}::int set)"
    by auto
  from len [rule_format, of 0] len [rule_format, of 1] len [rule_format, of 2] out
  show ?thesis by (simp add: fields c)
qed

section \<open>Start offsets outside the series\<close>

text \<open>
  Claim C1, as the code has it. The cell has no bounds check and raises no error for an
  offset: for the offset 19995 on a series of 20000 rows, with context length 512 and
  prediction length 20, the cell returns, with a context window of 5 rows and an empty
  future window.
\<close>

theorem range_error_counterexample:
  "map_sum (\<lambda>e. e) (\<lambda>out. (length (input_table out), length (ground_truth_table out)))
     (window_cell 512 20 [19995] (fresh_store (hourly_series 20000))) = Inr (5, 0)"
  by (simp add: window_cell_eq context_window_def future_window_def iloc_def slice_bound_def)

text \<open>
  Claim C1, amended. For a start offset \<open>off\<close> with \<open>off < 0\<close> or
  \<open>off + context_length + prediction_length > len(series)\<close> the extraction does not
  fail: the cell returns. When the offset and the two lengths are not negative, the
  context window holds the rows of the series from \<open>off\<close> on, up to \<open>context_length\<close>
  of them, the future window holds all the rows that follow up to the end of the series,
  and together they are the rows of the series from \<open>off\<close> to its end, in order, with the
  id column set.
\<close>

theorem no_range_error:
  assumes "j < length start_offsets" and "off = start_offsets ! j"
    and "off < 0 \<or> int (length (input_df s)) < off + context_length + prediction_length"
  shows "\<exists>out. window_cell context_length prediction_length start_offsets s = Inr out \<and>
           (0 \<le> off \<and> 0 \<le> context_length \<and> 0 \<le> prediction_length \<longrightarrow>
              deref (store out) (input_data (store out) ! j) =
                map (\<lambda>r. r\<lparr>id_column := Some (''id_'' @ str_int off)\<rparr>)
                  (take (nat context_length) (drop (nat off) (input_df s))) \<and>
              deref (store out) (ground_truth_data (store out) ! j) =
                map (\<lambda>r. r\<lparr>id_column := Some (''id_'' @ str_int off)\<rparr>)
                  (drop (nat off + nat context_length) (input_df s)) \<and>
              deref (store out) (input_data (store out) ! j) @
              deref (store out) (ground_truth_data (store out) ! j) =
                map (\<lambda>r. r\<lparr>id_column := Some (''id_'' @ str_int off)\<rparr>)
                  (drop (nat off) (input_df s)))"
proof -
  let ?tag = "\<lambda>r::('a, 'b, 'c) row. r\<lparr>id_column := Some (''id_'' @ str_int off)\<rparr>"
  let ?series = "input_df s"
  from assms(1) have ne: "start_offsets \<noteq> []" by auto
  let ?out = "\<lparr>input_table = concat (map (context_window context_length ?series) start_offsets),
               ground_truth_table =
                 concat (map (future_window context_length prediction_length ?series)
                   start_offsets),
               store = window_loop context_length prediction_length start_offsets s\<rparr>"
  let ?ctx = "deref (store ?out) (input_data (store ?out) ! j)"
  let ?fut = "deref (store ?out) (ground_truth_data (store ?out) ! j)"
  have cell: "window_cell context_length prediction_length start_offsets s = Inr ?out"
    using ne by (simp add: window_cell_eq)
  have cut: "?ctx = map ?tag (take (nat context_length) (drop (nat off) ?series)) \<and>
      ?fut = map ?tag (drop (nat off + nat context_length) ?series) \<and>
      ?ctx @ ?fut = map ?tag (drop (nat off) ?series)"
    if nonneg: "0 \<le> off" "0 \<le> context_length" "0 \<le> prediction_length"
  proof -
    from nonneg assms(3)
    have "int (length ?series) < off + context_length + prediction_length"
      by simp
    with nonneg
    have over: "length ?series \<le> nat off + nat context_length + nat prediction_length"
      by linarith
    have ctx: "?ctx = map ?tag (take (nat context_length) (drop (nat off) ?series))"
      using nonneg assms(1,2)
      by (simp add: window_loop_nth context_window_nonneg set_id_tag)
    have "take (nat prediction_length) (drop (nat off + nat context_length) ?series) =
        drop (nat off + nat context_length) ?series"
      using over by (intro take_all_drop) simp
    then have fut: "?fut = map ?tag (drop (nat off + nat context_length) ?series)"
      using nonneg assms(1,2)
      by (simp add: window_loop_nth future_window_nonneg set_id_tag nat_add_distrib)
    have "take (nat context_length) (drop (nat off) ?series) @
        drop (nat off + nat context_length) ?series = drop (nat off) ?series"
      using append_take_drop_id [of "nat context_length" "drop (nat off) ?series"]
      by (simp add: add.commute)
    then have "?ctx @ ?fut = map ?tag (drop (nat off) ?series)"
      unfolding ctx fut by (simp flip: map_append)
    with ctx fut show ?thesis by simp
  qed
  from cell cut show ?thesis by blast
qed

theorem no_range_error_witness:
  "(int (length (input_df (fresh_store (hourly_series 6)))) < 4 + 3 + 2) \<and>
   (\<exists>out. window_cell 3 2 [0, 4] (fresh_store (hourly_series 6)) = Inr out \<and>
      deref (store out) (input_data (store out) ! 1) =
        [(hourly_row 4)\<lparr>id_column := Some ''id_4''\<rparr>, (hourly_row 5)\<lparr>id_column := Some ''id_4''\<rparr>] \<and>
      deref (store out) (ground_truth_data (store out) ! 1) = []) \<and>
   (\<exists>out. window_cell 3 2 [- 5] (fresh_store (hourly_series 6)) = Inr out)"
proof -
  let ?s = "fresh_store (hourly_series 6)"
  have over: "(4::int) < 0 \<or> int (length (input_df ?s)) < 4 + 3 + 2" by simp
  have neg: "(- 5::int) < 0 \<or> int (length (input_df ?s)) < - 5 + 3 + 2" by simp
  have rows: "drop 4 (hourly_series 6) = [hourly_row 4, hourly_row 5]"
    by (simp add: drop_hourly_series)
  have tag: "str_int 4 = ''4''"
    by (simp add: str_int_def digit_def)
  from no_range_error [of 1 "[0, 4]" 4 ?s 3 2, OF _ _ over]
    no_range_error [of 0 "[- 5]" "- 5" ?s 3 2, OF _ _ neg]
  show ?thesis by (simp add: rows tag) blast
qed

section \<open>The repaired timestamps\<close>

text \<open>
  Claim C4. The dates read are pandas timestamps. When every hour offset and every sum
  stays in the range of pandas times, the loading cell returns; and whenever it returns,
  the loaded series has a row for every row read, and the timestamp of a row is the
  ISO 8601 string of its parsed date plus its hour-of-day field taken as a number of hours,
  a time in that range. For a date \<open>d\<close> at midnight and an hour \<open>h\<close> from 0 to 23 this
  is the date of \<open>d\<close>, the letter T and \<open>hh:00:00\<close>.
\<close>

theorem repaired_timestamp:
  assumes "\<forall>r \<in> set raw. int64_ns (dteday r)"
  shows "((\<forall>r \<in> set raw. int64_ns (hr r * 3600000000000) \<and>
                          int64_ns (dteday r + hr r * 3600000000000)) \<longrightarrow>
            (\<exists>loaded. load_series raw = Inr loaded)) \<and>
         (\<forall>loaded. load_series raw = Inr loaded \<longrightarrow>
            length loaded = length raw \<and>
            (\<forall>i < length raw.
               dteday (loaded ! i) =
                 isoformat (dteday (raw ! i) + hr (raw ! i) * 3600000000000) \<and>
               int64_ns (dteday (raw ! i) + hr (raw ! i) * 3600000000000) \<and>
               (\<forall>d. dteday (raw ! i) = d * 86400000000000 \<and>
                    0 \<le> hr (raw ! i) \<and> hr (raw ! i) < 24 \<longrightarrow>
                  dteday (loaded ! i) =
                    iso_date d @ ''T'' @ pad 2 (hr (raw ! i)) @ '':00:00'')))"
proof -
  have ns: "hour_ns = 3600000000000" "day_ns = 86400000000000"
    by (simp_all add: hour_ns_def day_ns_def)
  have returns: "\<exists>loaded. load_series raw = Inr loaded"
    if "\<forall>r \<in> set raw. int64_ns (hr r * 3600000000000) \<and>
                         int64_ns (dteday r + hr r * 3600000000000)"
    using that load_series_in_bounds [of raw] by (simp add: ns)
  have rows: "length loaded = length raw \<and>
      (\<forall>i < length raw.
         dteday (loaded ! i) = isoformat (dteday (raw ! i) + hr (raw ! i) * 3600000000000) \<and>
         int64_ns (dteday (raw ! i) + hr (raw ! i) * 3600000000000) \<and>
         (\<forall>d. dteday (raw ! i) = d * 86400000000000 \<and> 0 \<le> hr (raw ! i) \<and> hr (raw ! i) < 24 \<longrightarrow>
            dteday (loaded ! i) = iso_date d @ ''T'' @ pad 2 (hr (raw ! i)) @ '':00:00''))"
    if loaded: "load_series raw = Inr loaded" for loaded
  proof (intro conjI allI impI)
    show "length loaded = length raw"
      by (simp add: load_series_Inr [OF loaded])
  next
    fix i assume i: "i < length raw"
    then show iso: "dteday (loaded ! i) =
        isoformat (dteday (raw ! i) + hr (raw ! i) * 3600000000000)"
      by (simp add: load_series_Inr [OF loaded] ns)
    from i have "raw ! i \<in> set raw" by simp
    from load_series_Inr_bounds [OF loaded this]
    show "int64_ns (dteday (raw ! i) + hr (raw ! i) * 3600000000000)"
      by (simp add: ns)
    fix d
    assume "dteday (raw ! i) = d * 86400000000000 \<and> 0 \<le> hr (raw ! i) \<and> hr (raw ! i) < 24"
    then have d: "dteday (raw ! i) = d * 86400000000000"
      and h: "0 \<le> hr (raw ! i)" "hr (raw ! i) < 24"
      by simp_all
    show "dteday (loaded ! i) = iso_date d @ ''T'' @ pad 2 (hr (raw ! i)) @ '':00:00''"
      unfolding iso d
      using isoformat_midnight_plus_hours [OF h, of d] by (simp add: ns)
  qed
  from returns rows show ?thesis by blast
qed

theorem repaired_timestamp_witness:
  "load_series
     [\<lparr>dteday = 14975 * 86400000000000, hr = 0, casual = Some (3::int), registered = Some 13,
       id_column = None, others = ()\<rparr>,
      \<lparr>dteday = 15399 * 86400000000000, hr = 5, casual = Some 0, registered = Some 8,
       id_column = None, others = ()\<rparr>,
      \<lparr>dteday = 15705 * 86400000000000, hr = 23, casual = Some 12, registered = Some 37,
       id_column = None, others = ()\<rparr>] =
   Inr
     [\<lparr>dteday = ''2011-01-01T00:00:00'', hr = 0, casual = Some 3, registered = Some 13,
       id_column = None, others = ()\<rparr>,
      \<lparr>dteday = ''2012-02-29T05:00:00'', hr = 5, casual = Some 0, registered = Some 8,
       id_column = None, others = ()\<rparr>,
      \<lparr>dteday = ''2012-12-31T23:00:00'', hr = 23, casual = Some 12, registered = Some 37,
       id_column = None, others = ()\<rparr>]"
proof -
  let ?raw = "[\<lparr>dteday = 14975 * 86400000000000, hr = 0, casual = Some (3::int),
       registered = Some 13, id_column = None, others = ()\<rparr>,
      \<lparr>dteday = 15399 * 86400000000000, hr = 5, casual = Some 0, registered = Some 8,
       id_column = None, others = ()\<rparr>,
      \<lparr>dteday = 15705 * 86400000000000, hr = 23, casual = Some 12, registered = Some 37,
       id_column = None, others = ()\<rparr>]"
  have dates: "\<forall>r \<in> set ?raw. int64_ns (dteday r)"
    by (simp add: int64_ns_def)
  have bounds: "\<forall>r \<in> set ?raw. int64_ns (hr r * 3600000000000) \<and>
      int64_ns (dteday r + hr r * 3600000000000)"
    by (simp add: int64_ns_def)
  note inst = repaired_timestamp [OF dates]
  from inst [THEN conjunct1, THEN mp, OF bounds]
  obtain loaded where loaded: "load_series ?raw = Inr loaded" ..
  note rows = inst [THEN conjunct2, THEN spec, THEN mp, OF loaded, THEN conjunct2]
  from rows [THEN spec, of 0]
  have t0: "dteday (loaded ! 0) = iso_date 14975 @ ''T'' @ pad 2 0 @ '':00:00''"
    by auto
  from rows [THEN spec, of 1]
  have t1: "dteday (loaded ! 1) = iso_date 15399 @ ''T'' @ pad 2 5 @ '':00:00''"
    by auto
  from rows [THEN spec, of 2]
  have t2: "dteday (loaded ! 2) = iso_date 15705 @ ''T'' @ pad 2 23 @ '':00:00''"
    by auto
  have "loaded =
     [\<lparr>dteday = dteday (loaded ! 0), hr = 0, casual = Some 3, registered = Some 13,
       id_column = None, others = ()\<rparr>,
      \<lparr>dteday = dteday (loaded ! 1), hr = 5, casual = Some 0, registered = Some 8,
       id_column = None, others = ()\<rparr>,
      \<lparr>dteday = dteday (loaded ! 2), hr = 23, casual = Some 12, registered = Some 37,
       id_column = None, others = ()\<rparr>]"
    by (subst (1 2 3 4) load_series_Inr [OF loaded]) simp
  then show ?thesis
    unfolding loaded t0 t1 t2
    by (simp add: iso_date_2011_01_01 iso_date_2012_02_29 iso_date_2012_12_31 pad_eval)
qed

section \<open>Null target values\<close>

text \<open>
  Claim C5 says that null target values are filled when the series is loaded, and so does
  the notebook's text above the loading cell ("filling in any null values"). The cell
  fills nothing: a row read with a null \<^verbatim>\<open>casual\<close> field is loaded with the
  field still null.
\<close>

theorem null_target_not_filled:
  "map_sum (\<lambda>e. e) (map casual)
     (load_series [\<lparr>dteday = 14975 * day_ns, hr = 0, casual = None,
        registered = Some (13::int), id_column = None, others = ()\<rparr>]) = Inr [None]"
  by (simp add: load_series_def fix_hours_def to_isoformat_def set_dteday_def
      Timedelta_hr_def Timestamp_add_def int64_ns_def hour_ns_def day_ns_def)

section \<open>The curves of the plotting cell\<close>




lemma slice_bound_neg:
  assumes "0 < h"
  shows "slice_bound n (- h) = n - nat h"
proof -
  from assms obtain m where h: "h = int m"
    by (metis zero_less_imp_eq_int)
  have "nat (max (int n - int m) 0) = n - m"
    by (simp add: max_def nat_diff_distrib')
  with assms h show ?thesis
    by (simp add: slice_bound_def)
qed

lemma iloc_from_tail:
  "0 < history \<Longrightarrow> iloc_from xs (- history) = drop (length xs - nat history) xs"
  by (simp add: iloc_from_def slice_bound_neg)

lemma align_member:
  assumes "(k, a) \<in> set (align history input_tbl ground_truth_tbl df_out)"
  shows "a = align_group history k (filter (\<lambda>r. id_column r = Some k) input_tbl)
               ground_truth_tbl df_out"
  using assms by (auto simp: align_def groupby_id_def)

lemmas sample_eval = sample_input_def sample_ground_truth_def sample_forecast_def

lemmas align_eval =
  align_def groupby_id_def align_group_def tagged_row_def fc_row_def iloc_from_def
  slice_bound_def Let_def List.map_filter_def

text \<open>
  Claim C6, as the code has it. The cell does not sort: with a forecast response whose
  rows come in descending order of the timestamp (the sample response reversed), the
  predicted series are in that descending order.
\<close>

theorem predicted_series_order_counterexample:
  "align 60 sample_input sample_ground_truth (rev sample_forecast) =
   [(''id_0'',
     \<lparr>gt_dt = [''2011-01-01T00:00:00'', ''2011-01-01T01:00:00'', ''2011-01-01T02:00:00'',
               ''2011-01-01T03:00:00'', ''2011-01-01T04:00:00''],
      gt_val = [Some 16, Some 40, Some 32, Some 13, Some 1],
      pred_dt = [''2011-01-01T04:00:00'', ''2011-01-01T03:00:00'', ''2011-01-01T02:00:00''],
      pred_val = [Some 2, Some 11, Some 30]\<rparr>),
    (''id_5'',
     \<lparr>gt_dt = [''2011-01-01T05:00:00'', ''2011-01-01T06:00:00'', ''2011-01-01T07:00:00'',
               ''2011-01-01T08:00:00'', ''2011-01-01T09:00:00''],
      gt_val = [Some 1, Some 2, Some 3, Some 8, Some 14],
      pred_dt = [''2011-01-01T09:00:00'', ''2011-01-01T08:00:00'', ''2011-01-01T07:00:00''],
      pred_val = [Some 12, Some 9, Some 4]\<rparr>)] \<and>
   \<not> sorted [''2011-01-01T04:00:00'', ''2011-01-01T03:00:00'', ''2011-01-01T02:00:00'']"
  by (simp add: align_eval sample_eval less_eq_char_def less_char_def)

text \<open>
  Claim C6, amended. For every identifier that the cell processes and a history length
  above zero, the ground-truth series is the last \<open>history\<close> rows of the identifier's
  context rows (all of them when there are fewer) followed by all of the identifier's
  future rows, and the predicted series is all forecast rows of the identifier; each is
  given by its timestamps and its values of the first target column, in the row order of
  the tables.
\<close>

theorem aligned_series_contents:
  assumes "(k, a) \<in> set (align history input_tbl ground_truth_tbl df_out)"
    and "0 < history"
  shows "gt_dt a =
           map dteday (drop (length (filter (\<lambda>r. id_column r = Some k) input_tbl) - nat history)
                         (filter (\<lambda>r. id_column r = Some k) input_tbl)) @
           map dteday (filter (\<lambda>r. id_column r = Some k) ground_truth_tbl) \<and>
         gt_val a =
           map casual (drop (length (filter (\<lambda>r. id_column r = Some k) input_tbl) - nat history)
                         (filter (\<lambda>r. id_column r = Some k) input_tbl)) @
           map casual (filter (\<lambda>r. id_column r = Some k) ground_truth_tbl) \<and>
         pred_dt a = map fc_dteday (filter (\<lambda>r. fc_id r = k) df_out) \<and>
         pred_val a = map fc_casual (filter (\<lambda>r. fc_id r = k) df_out)"
  unfolding align_member [OF assms(1)]
  by (simp add: align_group_def Let_def iloc_from_tail [OF assms(2)] drop_map)

theorem aligned_series_contents_witness:
  "(''id_5'',
     \<lparr>gt_dt = [''2011-01-01T06:00:00'', ''2011-01-01T07:00:00'', ''2011-01-01T08:00:00'',
               ''2011-01-01T09:00:00''],
      gt_val = [Some 2, Some 3, Some 8, Some 14],
      pred_dt = [''2011-01-01T07:00:00'', ''2011-01-01T08:00:00'', ''2011-01-01T09:00:00''],
      pred_val = [Some 4, Some 9, Some 12]\<rparr>)
   \<in> set (align 1 sample_input sample_ground_truth sample_forecast)"
proof -
  obtain a b where ab: "align 1 sample_input sample_ground_truth sample_forecast =
      [(''id_0'', a), (''id_5'', b)]"
    by (simp add: align_def groupby_id_def List.map_filter_def tagged_row_def sample_eval
        less_eq_char_def less_char_def)
  then have mem: "(''id_5'', b) \<in> set (align 1 sample_input sample_ground_truth sample_forecast)"
    by simp
  from aligned_series_contents [OF mem]
  have "b = \<lparr>gt_dt = [''2011-01-01T06:00:00'', ''2011-01-01T07:00:00'', ''2011-01-01T08:00:00'',
               ''2011-01-01T09:00:00''],
      gt_val = [Some 2, Some 3, Some 8, Some 14],
      pred_dt = [''2011-01-01T07:00:00'', ''2011-01-01T08:00:00'', ''2011-01-01T09:00:00''],
      pred_val = [Some 4, Some 9, Some 12]\<rparr>"
    by (simp add: tagged_row_def fc_row_def sample_eval)
  with mem show ?thesis by simp
qed





lemma plot_cell_Inr:
  "plot_cell history input_tbl ground_truth_tbl df_out = Inr res \<Longrightarrow>
     res = align history input_tbl ground_truth_tbl df_out"
  by (simp add: plot_cell_def Let_def split: if_splits)




end
